theory Spec2Isabelle
  imports Main
begin

section \<open>JavaScript strings\<close>

text \<open>
  A JavaScript string is a sequence of UTF-16 code units; \<open>length\<close>, \<open>substring\<close>,
  \<open>includes\<close> and \<open>split\<close> all count code units. The model is \<^typ>\<open>string\<close>, one
  \<^typ>\<open>char\<close> per code unit, which covers every string whose code units are below 256
  (ASCII and Latin-1). All keywords and separators of the routes are ASCII.
\<close>

definition lower_char :: "char \<Rightarrow> char" where
  \<comment> \<open>the case mapping of \<open>toLowerCase\<close> on code units below 256: A-Z and the Latin-1
      capitals (U+00C0..U+00DE without the multiplication sign U+00D7) move up by 32\<close>
  "lower_char c =
     (let n = (of_char c :: nat)
      in if (65 \<le> n \<and> n \<le> 90) \<or> (192 \<le> n \<and> n \<le> 222 \<and> n \<noteq> 215)
         then char_of (n + 32) else c)"

definition toLowerCase :: "string \<Rightarrow> string" where
  "toLowerCase s = map lower_char s"

fun startsWith :: "string \<Rightarrow> string \<Rightarrow> bool" where
  "startsWith s [] = True"
| "startsWith [] (p # ps) = False"
| "startsWith (c # cs) (p # ps) = (c = p \<and> startsWith cs ps)"

fun str_includes :: "string \<Rightarrow> string \<Rightarrow> bool" where
  "str_includes [] sub = (sub = [])"
| "str_includes (c # cs) sub = (startsWith (c # cs) sub \<or> str_includes cs sub)"

definition substring :: "string \<Rightarrow> nat \<Rightarrow> nat \<Rightarrow> string" where
  \<comment> \<open>\<open>s.substring(a, b)\<close> for \<open>a \<le> b\<close>; indexes past the end are clamped\<close>
  "substring s a b = take (b - a) (drop a s)"

definition is_white_space :: "char \<Rightarrow> bool" where
  \<comment> \<open>what \<open>trim()\<close> strips, below 256: TAB, LF, VT, FF, CR, space, NBSP\<close>
  "is_white_space c = ((of_char c :: nat) \<in> {9, 10, 11, 12, 13, 32, 160})"

definition trim :: "string \<Rightarrow> string" where
  "trim s = rev (dropWhile is_white_space (rev (dropWhile is_white_space s)))"

fun join :: "string \<Rightarrow> string list \<Rightarrow> string" where
  "join sep [] = []"
| "join sep [x] = x"
| "join sep (x # y # ys) = x @ sep @ join sep (y # ys)"

definition slice :: "'a list \<Rightarrow> nat \<Rightarrow> nat \<Rightarrow> 'a list" where
  \<comment> \<open>\<open>xs.slice(a, b)\<close> for \<open>a \<le> b\<close>\<close>
  "slice xs a b = take (b - a) (drop a xs)"

section \<open>Environment probe: \<open>api/env/route.ts\<close>\<close>

text \<open>
  \<open>process.env\<close> maps a variable name to its value, or to \<open>undefined\<close> when unset.
\<close>

type_synonym process_env = "string \<Rightarrow> string option"

definition truthy :: "string option \<Rightarrow> bool" where
  \<comment> \<open>\<open>!!v\<close> for a value that is a string or \<open>undefined\<close>: false for \<open>undefined\<close> and for the
      empty string\<close>
  "truthy v = (case v of None \<Rightarrow> False | Some s \<Rightarrow> s \<noteq> [])"

record env_response =
  url :: "string option"
  anon :: bool
  service :: bool

definition env_GET :: "process_env \<Rightarrow> env_response" where
  \<comment> \<open>\<open>GET\<close> of \<open>api/env/route.ts\<close>; \<open>x ?? null\<close> keeps every defined value\<close>
  "env_GET env =
     \<lparr> url = env ''NEXT_PUBLIC_SUPABASE_URL'',
       anon = truthy (env ''NEXT_PUBLIC_SUPABASE_PUBLISHABLE_KEY''),
       service = truthy (env ''SUPABASE_SECRET_KEY'') \<rparr>"

section \<open>Single-session ingestion, fallback path: \<open>api/ingest/route.ts\<close>\<close>

record chunk_insert =
  chunk_session_id :: string
  chunk_text :: string
  start_sec :: nat
  end_sec :: "nat option"

record candidate_insert =
  cand_session_id :: string
  topic_id_suggested :: "string option"
  cand_label :: string
  evidence :: string
  why_new :: string
  cand_status :: string

definition is_sentence_end :: "char \<Rightarrow> bool" where
  \<comment> \<open>the character class \<open>[.!?]\<close>\<close>
  "is_sentence_end c = (c = CHR ''.'' \<or> c = CHR ''!'' \<or> c = CHR ''?'')"

function split_sentences :: "string \<Rightarrow> string \<Rightarrow> string list" where
  \<comment> \<open>\<open>s.split(/[.!?]+/)\<close>: the pieces between the maximal runs of sentence enders; the
      piece being read is accumulated in reverse. A leading or trailing run gives an empty
      piece, and the empty string gives one empty piece.\<close>
  "split_sentences acc [] = [rev acc]"
| "split_sentences acc (c # cs) =
     (if is_sentence_end c
      then rev acc # split_sentences [] (dropWhile is_sentence_end cs)
      else split_sentences (c # acc) cs)"
  by pat_completeness auto
termination
  by (relation "measure (\<lambda>(acc, s). length s)")
     (auto simp: le_imp_less_Suc length_dropWhile_le)

definition chunkSize :: nat where
  "chunkSize = 2"

function chunk_loop :: "string \<Rightarrow> string list \<Rightarrow> nat \<Rightarrow> chunk_insert list" where
  \<comment> \<open>\<open>for (let i = 0; i < sentences.length; i += chunkSize)\<close>, returning the rows
      pushed from index \<open>i\<close> on\<close>
  "chunk_loop sid sentences i =
     (if i < length sentences
      then (let chunkText = trim (join ''. '' (slice sentences i (i + chunkSize)))
            in (if length chunkText > 20
                then [\<lparr> chunk_session_id = sid, chunk_text = chunkText,
                        start_sec = i * 10, end_sec = Some ((i + chunkSize) * 10) \<rparr>]
                else [])
               @ chunk_loop sid sentences (i + chunkSize))
      else [])"
  by pat_completeness auto
termination
  by (relation "measure (\<lambda>(sid, sentences, i). length sentences - i)")
     (auto simp: chunkSize_def)

declare chunk_loop.simps [simp del]

definition sentences_of :: "string \<Rightarrow> string list" where
  \<comment> \<open>\<open>raw.split(/[.!?]+/).filter(s => s.trim().length > 10)\<close>\<close>
  "sentences_of raw = filter (\<lambda>s. length (trim s) > 10) (split_sentences [] raw)"

definition window_chunks :: "string \<Rightarrow> string \<Rightarrow> chunk_insert list" where
  \<comment> \<open>\<open>basicChunks\<close> after the loop, before the check for emptiness\<close>
  "window_chunks sid raw = chunk_loop sid (sentences_of raw) 0"

definition basicChunks :: "string \<Rightarrow> string \<Rightarrow> chunk_insert list" where
  "basicChunks sid raw =
     (let chunks = window_chunks sid raw
      in if length chunks = 0
         then chunks @ [\<lparr> chunk_session_id = sid, chunk_text = substring raw 0 2000,
                          start_sec = 0, end_sec = None \<rparr>]
         else chunks)"

definition product_group :: "string \<Rightarrow> bool" where
  "product_group text =
     (str_includes text ''product'' \<or> str_includes text ''development'' \<or> str_includes text ''feature'')"

definition user_group :: "string \<Rightarrow> bool" where
  "user_group text =
     (str_includes text ''user'' \<or> str_includes text ''feedback'' \<or> str_includes text ''customer'')"

definition planning_group :: "string \<Rightarrow> bool" where
  "planning_group text =
     (str_includes text ''timeline'' \<or> str_includes text ''priority'' \<or> str_includes text ''plan'')"

definition keyword_candidate :: "string \<Rightarrow> string \<Rightarrow> string \<Rightarrow> string \<Rightarrow> candidate_insert" where
  \<comment> \<open>the object literal pushed for a matched keyword group\<close>
  "keyword_candidate sid raw lbl why =
     \<lparr> cand_session_id = sid, topic_id_suggested = None, cand_label = lbl,
       evidence = substring raw 0 150, why_new = why, cand_status = ''pending'' \<rparr>"

definition general_candidate :: "string \<Rightarrow> string \<Rightarrow> candidate_insert" where
  "general_candidate sid raw =
     \<lparr> cand_session_id = sid, topic_id_suggested = None,
       cand_label = ''General Discussion'', evidence = substring raw 0 100,
       why_new = ''Basic topic detection (pipeline failed)'', cand_status = ''pending'' \<rparr>"

definition matched_candidates :: "string \<Rightarrow> string \<Rightarrow> candidate_insert list" where
  \<comment> \<open>\<open>basicCandidates\<close> after the three keyword tests, in the order of the pushes\<close>
  "matched_candidates sid raw =
     (let text = toLowerCase raw
      in (if product_group text
          then [keyword_candidate sid raw ''Product Development''
                  ''Contains product development discussion'']
          else [])
         @ (if user_group text
            then [keyword_candidate sid raw ''User Feedback''
                    ''Contains user feedback discussion'']
            else [])
         @ (if planning_group text
            then [keyword_candidate sid raw ''Planning & Timeline''
                    ''Contains planning and timeline discussion'']
            else []))"

definition basicCandidates :: "string \<Rightarrow> string \<Rightarrow> candidate_insert list" where
  "basicCandidates sid raw =
     (let found = matched_candidates sid raw
      in if length found = 0 then found @ [general_candidate sid raw] else found)"

section \<open>Candidate approval: \<open>api/approvals/commit/route.ts\<close>\<close>

text \<open>
  The route talks to the database through a client that is not part of the repository.
  Every call is an awaited promise, and the model records how each one ended:
  \<^item> \<open>Applied\<close>: the promise resolves with \<open>error\<close> null, the statement was executed;
  \<^item> \<open>Failed\<close>: the promise resolves with \<open>error\<close> set and \<open>data\<close> null, nothing was
    written (the way the client reports a failure of the database, as the check
    \<open>if (sessionError) throw sessionError\<close> of the ingestion route shows);
  \<^item> \<open>Rejected\<close>: the promise rejects, so the \<open>await\<close> throws.
  The outcome of the k-th call of a request is a parameter of the request, as are the rows
  the reads return and the clock. The request's effect on the database is the list of the
  statements it issued, each with its outcome.
\<close>

datatype outcome = Applied | Failed | Rejected

record decision =
  id' :: string
  status :: string
  action :: "string option"
  targetCoreId :: "string option"
  sessionId :: "string option"

record config_select =
  auto_chunk_tag_after_approval :: "bool option"

record candidate_select =
  label :: string
  sel_topic_id_suggested :: "string option"

record candidate_update =
  upd_candidate_id :: string
  upd_status :: string
  decided_at :: string
  approver_id :: string

record alias_upsert =
  topic_id :: "string option"
  alias' :: string

record relation_upsert =
  parent_id :: "string option"
  child_id :: string
  relation_type :: string
  rollup_weight :: int

record topic_upsert =
  new_id :: string
  new_label :: string
  created_by :: string

datatype payload =
  Status_changed string "string option" "string option"
    \<comment> \<open>\<open>{ to: status, action, targetCoreId }\<close>\<close>
| Count nat
    \<comment> \<open>\<open>{ count: decisions.length }\<close>\<close>
| Auto_triggered bool
    \<comment> \<open>\<open>{ auto_triggered: true }\<close>\<close>

record event_insert =
  actor :: string
  event_type :: string
  ev_candidate_id :: "string option"
  ev_session_id :: "string option"
  payload_json :: payload

datatype statement =
  Select_config
    \<comment> \<open>\<open>scoring_config\<close>, column \<open>auto_chunk_tag_after_approval\<close> of the row with id 1\<close>
| Update_candidate candidate_update
| Select_candidate string
    \<comment> \<open>\<open>label, topic_id_suggested\<close> of the candidate with this id\<close>
| Upsert_alias alias_upsert
| Upsert_relation relation_upsert
| Upsert_topic topic_upsert
| Insert_event event_insert

type_synonym trace = "(statement \<times> outcome) list"

record db_env =
  outcome_of :: "nat \<Rightarrow> outcome"
  config_row :: "config_select option"
  candidate_row :: "string \<Rightarrow> candidate_select option"
  clock :: "nat \<Rightarrow> string"

datatype response =
  Json_success
    \<comment> \<open>\<open>{ success: true }\<close>, status 200\<close>
| Json_error string nat
    \<comment> \<open>\<open>{ error: message }\<close> with the given status\<close>

definition db_call :: "db_env \<Rightarrow> statement \<Rightarrow> trace \<Rightarrow> outcome \<times> trace" where
  \<comment> \<open>one awaited call: its outcome, and the trace with the call added\<close>
  "db_call env st tr = (let out = outcome_of env (length tr) in (out, tr @ [(st, out)]))"

definition or_unknown :: "string option \<Rightarrow> string" where
  \<comment> \<open>\<open>v || 'unknown'\<close> for a value that is a string, null or undefined\<close>
  "or_unknown v = (case v of None \<Rightarrow> ''unknown'' | Some s \<Rightarrow> if s = [] then ''unknown'' else s)"

definition candidate_label :: "candidate_select option \<Rightarrow> string" where
  \<comment> \<open>\<open>candidate?.label || 'unknown'\<close>\<close>
  "candidate_label candidate = or_unknown (map_option label candidate)"

definition candidate_topic_id :: "candidate_select option \<Rightarrow> string" where
  \<comment> \<open>\<open>candidate?.topic_id_suggested || 'unknown'\<close>\<close>
  "candidate_topic_id candidate =
     or_unknown (case candidate of None \<Rightarrow> None | Some c \<Rightarrow> sel_topic_id_suggested c)"

definition approved_statement :: "candidate_select option \<Rightarrow> decision \<Rightarrow> statement" where
  \<comment> \<open>the write chosen for an approved decision, lines 39 to 60\<close>
  "approved_statement candidate d =
     (if action d = Some ''alias'' \<and> truthy (targetCoreId d)
      then Upsert_alias \<lparr> topic_id = targetCoreId d, alias' = candidate_label candidate \<rparr>
      else if action d = Some ''subtopic'' \<and> truthy (targetCoreId d)
      then Upsert_relation \<lparr> parent_id = targetCoreId d,
             child_id = candidate_topic_id candidate,
             relation_type = ''parent_child'', rollup_weight = 1 \<rparr>
      else Upsert_topic \<lparr> new_id = candidate_topic_id candidate,
             new_label = candidate_label candidate, created_by = ''ui'' \<rparr>)"

definition approved_writes :: "db_env \<Rightarrow> decision \<Rightarrow> trace \<Rightarrow> bool \<times> trace" where
  \<comment> \<open>the body of \<open>if (status === 'approved')\<close>; the boolean is False when an \<open>await\<close>
      threw\<close>
  "approved_writes env d tr =
     (let (o1, tr1) = db_call env (Select_candidate (id' d)) tr
      in if o1 = Rejected then (False, tr1)
         else (let candidate = (if o1 = Applied then candidate_row env (id' d) else None);
                   (o2, tr2) = db_call env (approved_statement candidate d) tr1
               in (o2 \<noteq> Rejected, tr2)))"

definition status_event :: "decision \<Rightarrow> event_insert" where
  "status_event d =
     \<lparr> actor = ''ui'', event_type = ''candidate_status_changed'',
       ev_candidate_id = Some (id' d), ev_session_id = sessionId d,
       payload_json = Status_changed (status d) (action d) (targetCoreId d) \<rparr>"

definition decision_step :: "db_env \<Rightarrow> decision \<Rightarrow> trace \<Rightarrow> bool \<times> trace" where
  \<comment> \<open>the body of \<open>for (const decision of decisions)\<close>\<close>
  "decision_step env d tr =
     (let (o1, tr1) = db_call env (Update_candidate
              \<lparr> upd_candidate_id = id' d, upd_status = status d,
                decided_at = clock env (length tr), approver_id = ''ui'' \<rparr>) tr
      in if o1 = Rejected then (False, tr1)
         else (let (ok, tr2) = (if status d = ''approved'' then approved_writes env d tr1
                                else (True, tr1))
               in if \<not> ok then (False, tr2)
                  else (let (o3, tr3) = db_call env (Insert_event (status_event d)) tr2
                        in (o3 \<noteq> Rejected, tr3))))"

fun decisions_loop :: "db_env \<Rightarrow> decision list \<Rightarrow> trace \<Rightarrow> bool \<times> trace" where
  "decisions_loop env [] tr = (True, tr)"
| "decisions_loop env (d # ds) tr =
     (let (ok, tr1) = decision_step env d tr
      in if ok then decisions_loop env ds tr1 else (False, tr1))"

definition autoChunkTag :: "config_select option \<Rightarrow> bool" where
  \<comment> \<open>\<open>config?.auto_chunk_tag_after_approval || false\<close>\<close>
  "autoChunkTag config =
     (case config of None \<Rightarrow> False
      | Some c \<Rightarrow> (case auto_chunk_tag_after_approval c of None \<Rightarrow> False | Some b \<Rightarrow> b))"

definition first_sessionId :: "decision list \<Rightarrow> string option" where
  \<comment> \<open>\<open>decisions[0].sessionId\<close>, read only when the list is not empty\<close>
  "first_sessionId decisions = (case decisions of [] \<Rightarrow> None | d # _ \<Rightarrow> sessionId d)"

definition taxonomy_event :: "decision list \<Rightarrow> event_insert" where
  "taxonomy_event decisions =
     \<lparr> actor = ''ui'', event_type = ''taxonomy_applied'', ev_candidate_id = None,
       ev_session_id = first_sessionId decisions,
       payload_json = Count (length decisions) \<rparr>"

definition chunk_tag_event :: "decision list \<Rightarrow> event_insert" where
  "chunk_tag_event decisions =
     \<lparr> actor = ''ui'', event_type = ''chunk_tag_requested'', ev_candidate_id = None,
       ev_session_id = first_sessionId decisions,
       payload_json = Auto_triggered True \<rparr>"

definition failed_to_commit :: response where
  "failed_to_commit = Json_error ''Failed to commit approvals'' 500"

definition commit_POST :: "db_env \<Rightarrow> decision list \<Rightarrow> response \<times> trace" where
  \<comment> \<open>\<open>POST\<close>, from the parsed request body on. The outer \<open>catch\<close> answers 500 to
      whatever was thrown; the inner one, around the chunk+tag event, only logs.\<close>
  "commit_POST env decisions =
     (let (o0, tr0) = db_call env Select_config []
      in if o0 = Rejected then (failed_to_commit, tr0)
         else (let config = (if o0 = Applied then config_row env else None);
                   (ok1, tr1) = decisions_loop env decisions tr0
               in if \<not> ok1 then (failed_to_commit, tr1)
                  else (let (ok2, tr2) =
                              (if length decisions > 0
                               then (let (o2, t) = db_call env
                                           (Insert_event (taxonomy_event decisions)) tr1
                                     in (o2 \<noteq> Rejected, t))
                               else (True, tr1))
                        in if \<not> ok2 then (failed_to_commit, tr2)
                           else (let tr3 =
                                       (if autoChunkTag config \<and> length decisions > 0
                                        then snd (db_call env
                                               (Insert_event (chunk_tag_event decisions)) tr2)
                                        else tr2)
                                 in (Json_success, tr3)))))"

definition event_statements :: "trace \<Rightarrow> event_insert list" where
  \<comment> \<open>the rows of the inserts into \<open>events\<close> that a request issued, in order\<close>
  "event_statements tr =
     concat (map (\<lambda>(st, out). case st of Insert_event e \<Rightarrow> [e] | _ \<Rightarrow> []) tr)"


definition inserted_events :: "trace \<Rightarrow> event_insert list" where
  \<comment> \<open>the rows that the executed inserts added to \<open>events\<close>\<close>
  "inserted_events tr = event_statements (filter (\<lambda>(st, out). out = Applied) tr)"


subsection \<open>Example requests\<close>

definition demo_env :: "(nat \<Rightarrow> outcome) \<Rightarrow> bool \<Rightarrow> db_env" where
  \<comment> \<open>a database holding the candidate \<open>c1\<close>, labelled Pricing with the slug pricing\<close>
  "demo_env outs auto =
     \<lparr> outcome_of = outs,
       config_row = Some \<lparr> auto_chunk_tag_after_approval = Some auto \<rparr>,
       candidate_row = (\<lambda>c. if c = ''c1''
                             then Some \<lparr> label = ''Pricing'',
                                         sel_topic_id_suggested = Some ''pricing'' \<rparr>
                             else None),
       clock = (\<lambda>k. ''2024-01-15T10:30:00.000Z'') \<rparr>"

definition demo_decision :: "string \<Rightarrow> string option \<Rightarrow> string option \<Rightarrow> decision" where
  "demo_decision st act target =
     \<lparr> id' = ''c1'', status = st, action = act, targetCoreId = target,
       sessionId = Some ''s1'' \<rparr>"

definition demo_update :: "string \<Rightarrow> statement" where
  "demo_update st =
     Update_candidate \<lparr> upd_candidate_id = ''c1'', upd_status = st,
       decided_at = ''2024-01-15T10:30:00.000Z'', approver_id = ''ui'' \<rparr>"



section \<open>Taxonomy tables: \<open>supabase/migrations\<close>\<close>

text \<open>
  The rows of \<open>topics\<close>, \<open>topic_aliases\<close> and \<open>topic_relations\<close> as the first migration
  declares them; a table is the list of its rows. \<open>alias_id\<close> is a generated key, and
  \<open>rollup_weight\<close> is only stored and read back, never computed with.
\<close>

record topics_row =
  topics_id :: string
  topics_label :: string
  topics_description :: "string option"
  topics_status :: string
  topics_created_at :: string
  topics_created_by :: "string option"

record topic_aliases_row =
  aliases_alias_id :: nat
  aliases_alias :: string
  aliases_topic_id :: string
  aliases_created_at :: string

record topic_relations_row =
  relations_parent_id :: string
  relations_child_id :: string
  relations_relation_type :: string
  relations_rollup_weight :: "int option"

record taxonomy_tables =
  topics_table :: "topics_row list"
  topic_aliases_table :: "topic_aliases_row list"
  topic_relations_table :: "topic_relations_row list"

datatype db_error =
  Unique_violation string
| Foreign_key_violation string
| Not_null_violation string

text \<open>
  The constraints. \<open>lower\<close> is the database's \<open>lower()\<close>, which depends on its locale and
  is a parameter here: two texts differ only in case when \<open>lower\<close> maps them to the same
  text.
\<close>

definition topics_pkey :: "topics_row list \<Rightarrow> bool" where
  \<comment> \<open>\<open>id text primary key\<close>\<close>
  "topics_pkey ts = distinct (map topics_id ts)"

definition uq_topics_label :: "(string \<Rightarrow> string) \<Rightarrow> topics_row list \<Rightarrow> bool" where
  \<comment> \<open>\<open>create unique index uq_topics_label on topics (lower(label))\<close>\<close>
  "uq_topics_label lower ts = distinct (map (\<lambda>t. lower (topics_label t)) ts)"

definition topic_aliases_alias_key :: "topic_aliases_row list \<Rightarrow> bool" where
  \<comment> \<open>\<open>alias text unique not null\<close>\<close>
  "topic_aliases_alias_key as = distinct (map aliases_alias as)"

definition uq_topic_aliases :: "(string \<Rightarrow> string) \<Rightarrow> topic_aliases_row list \<Rightarrow> bool" where
  \<comment> \<open>\<open>create unique index uq_topic_aliases on topic_aliases (topic_id, lower(alias))\<close>\<close>
  "uq_topic_aliases lower as =
     distinct (map (\<lambda>a. (aliases_topic_id a, lower (aliases_alias a))) as)"

definition unique_ignoring_case :: "(string \<Rightarrow> string) \<Rightarrow> taxonomy_tables \<Rightarrow> bool" where
  \<comment> \<open>the invariant: topic ids are a key, labels are unique ignoring case, and so are
      the aliases of each topic\<close>
  "unique_ignoring_case lower db =
     (topics_pkey (topics_table db) \<and> uq_topics_label lower (topics_table db)
      \<and> uq_topic_aliases lower (topic_aliases_table db))"

text \<open>
  The writes of the approval route, as the database executes them. An upsert sent without
  a conflict target is \<open>INSERT ... ON CONFLICT (primary key) DO UPDATE\<close>. A unique index is
  checked when the row is written, a foreign key at the end of the statement; a statement
  that fails leaves the tables as they were.
\<close>

definition upsert_topics ::
  "(string \<Rightarrow> string) \<Rightarrow> string \<Rightarrow> topic_upsert \<Rightarrow> taxonomy_tables \<Rightarrow> db_error + taxonomy_tables"
where
  \<comment> \<open>\<open>sb.from('topics').upsert({ id, label, created_by })\<close>: the row with this id is
      updated, or a new row is inserted with the column defaults\<close>
  "upsert_topics lower now u db =
     (let others = filter (\<lambda>t. topics_id t \<noteq> new_id u) (topics_table db)
      in if lower (new_label u) \<in> set (map (\<lambda>t. lower (topics_label t)) others)
         then Inl (Unique_violation ''uq_topics_label'')
         else if new_id u \<in> set (map topics_id (topics_table db))
         then Inr (db\<lparr> topics_table :=
                 map (\<lambda>t. if topics_id t = new_id u
                          then t\<lparr> topics_label := new_label u,
                                 topics_created_by := Some (created_by u) \<rparr>
                          else t) (topics_table db) \<rparr>)
         else Inr (db\<lparr> topics_table := topics_table db @
                 [\<lparr> topics_id = new_id u, topics_label = new_label u,
                    topics_description = None, topics_status = ''active'',
                    topics_created_at = now,
                    topics_created_by = Some (created_by u) \<rparr>] \<rparr>))"

definition gen_alias_id :: "topic_aliases_row list \<Rightarrow> nat" where
  \<comment> \<open>stands for \<open>gen_random_uuid()\<close>: a key that no row has\<close>
  "gen_alias_id as = Suc (fold max (map aliases_alias_id as) 0)"

definition upsert_topic_aliases ::
  "(string \<Rightarrow> string) \<Rightarrow> string \<Rightarrow> alias_upsert \<Rightarrow> taxonomy_tables \<Rightarrow> db_error + taxonomy_tables"
where
  \<comment> \<open>\<open>sb.from('topic_aliases').upsert({ topic_id, alias })\<close>: the key \<open>alias_id\<close> is
      generated, so the conflict target never matches and the row is inserted\<close>
  "upsert_topic_aliases lower now v db =
     (case topic_id v of
        None \<Rightarrow> Inl (Not_null_violation ''topic_id'')
      | Some tid \<Rightarrow>
          if alias' v \<in> set (map aliases_alias (topic_aliases_table db))
          then Inl (Unique_violation ''topic_aliases_alias_key'')
          else if (tid, lower (alias' v))
                  \<in> set (map (\<lambda>a. (aliases_topic_id a, lower (aliases_alias a)))
                           (topic_aliases_table db))
          then Inl (Unique_violation ''uq_topic_aliases'')
          else if tid \<notin> set (map topics_id (topics_table db))
          then Inl (Foreign_key_violation ''topic_aliases_topic_id_fkey'')
          else Inr (db\<lparr> topic_aliases_table := topic_aliases_table db @
                  [\<lparr> aliases_alias_id = gen_alias_id (topic_aliases_table db),
                     aliases_alias = alias' v, aliases_topic_id = tid,
                     aliases_created_at = now \<rparr>] \<rparr>))"

definition same_relation :: "string \<Rightarrow> relation_upsert \<Rightarrow> topic_relations_row \<Rightarrow> bool" where
  \<comment> \<open>the primary key \<open>(parent_id, child_id, relation_type)\<close>\<close>
  "same_relation pid w r =
     (relations_parent_id r = pid \<and> relations_child_id r = child_id w
      \<and> relations_relation_type r = relation_type w)"

definition upsert_topic_relations ::
  "relation_upsert \<Rightarrow> taxonomy_tables \<Rightarrow> db_error + taxonomy_tables"
where
  \<comment> \<open>\<open>sb.from('topic_relations').upsert({ parent_id, child_id, relation_type,
      rollup_weight })\<close>\<close>
  "upsert_topic_relations w db =
     (case parent_id w of
        None \<Rightarrow> Inl (Not_null_violation ''parent_id'')
      | Some pid \<Rightarrow>
          if pid \<notin> set (map topics_id (topics_table db))
          then Inl (Foreign_key_violation ''topic_relations_parent_id_fkey'')
          else if child_id w \<notin> set (map topics_id (topics_table db))
          then Inl (Foreign_key_violation ''topic_relations_child_id_fkey'')
          else if list_ex (same_relation pid w) (topic_relations_table db)
          then Inr (db\<lparr> topic_relations_table :=
                  map (\<lambda>r. if same_relation pid w r
                           then r\<lparr> relations_rollup_weight := Some (rollup_weight w) \<rparr>
                           else r) (topic_relations_table db) \<rparr>)
          else Inr (db\<lparr> topic_relations_table := topic_relations_table db @
                  [\<lparr> relations_parent_id = pid, relations_child_id = child_id w,
                     relations_relation_type = relation_type w,
                     relations_rollup_weight = Some (rollup_weight w) \<rparr>] \<rparr>))"

definition execute ::
  "(string \<Rightarrow> string) \<Rightarrow> string \<Rightarrow> statement \<Rightarrow> taxonomy_tables \<Rightarrow> db_error + taxonomy_tables"
where
  \<comment> \<open>the effect of a statement of the approval route on the three taxonomy tables; the
      reads, the update of \<open>topic_candidates\<close> and the inserts into \<open>events\<close> touch other
      tables\<close>
  "execute lower now st db =
     (case st of
        Upsert_topic u \<Rightarrow> upsert_topics lower now u db
      | Upsert_alias v \<Rightarrow> upsert_topic_aliases lower now v db
      | Upsert_relation w \<Rightarrow> upsert_topic_relations w db
      | _ \<Rightarrow> Inr db)"

section \<open>Taxonomy page: \<open>(dashboard)/taxonomy/page.tsx\<close>\<close>

record Topic = topics_row +
  aliases :: "string list"
  children :: "string list"
  parents :: "string list"

record page_state =
  topics :: "Topic list"
  isLoading :: bool

text \<open>
  What the page reads: the three tables, the order in which the database returns the
  topics for \<open>order('label')\<close> (it depends on the collation), and how each of the three
  selects ends.
\<close>

record taxonomy_db =
  tables :: taxonomy_tables
  order_label :: "topics_row list \<Rightarrow> topics_row list"
  select_outcome :: "nat \<Rightarrow> outcome"

definition or_empty :: "'a list option \<Rightarrow> 'a list" where
  \<comment> \<open>\<open>data ?? []\<close>\<close>
  "or_empty data = (case data of None \<Rightarrow> [] | Some rows \<Rightarrow> rows)"

definition select_data :: "outcome \<Rightarrow> 'a list \<Rightarrow> 'a list option" where
  \<comment> \<open>the \<open>data\<close> of a select that did not throw: the rows, or null on an error\<close>
  "select_data out rows = (if out = Applied then Some rows else None)"

definition topicsWithRelations ::
  "topics_row list option \<Rightarrow> topic_aliases_row list option \<Rightarrow> topic_relations_row list option
     \<Rightarrow> Topic list"
where
  "topicsWithRelations topicsData aliasesData relationsData =
     map (\<lambda>topic.
            \<lparr> topics_id = topics_id topic, topics_label = topics_label topic,
              topics_description = topics_description topic,
              topics_status = topics_status topic,
              topics_created_at = topics_created_at topic,
              topics_created_by = topics_created_by topic,
              aliases = map aliases_alias
                          (filter (\<lambda>a. aliases_topic_id a = topics_id topic)
                             (or_empty aliasesData)),
              children = map relations_child_id
                           (filter (\<lambda>r. relations_parent_id r = topics_id topic)
                              (or_empty relationsData)),
              parents = map relations_parent_id
                          (filter (\<lambda>r. relations_child_id r = topics_id topic)
                             (or_empty relationsData)) \<rparr>)
         (or_empty topicsData)"

definition load :: "taxonomy_db \<Rightarrow> page_state \<Rightarrow> page_state \<times> taxonomy_db" where
  \<comment> \<open>\<open>load()\<close>: the page state and the database after the call. A select that throws
      is caught and logged, and \<open>finally\<close> clears the loading flag either way.\<close>
  "load db st =
     (let caught = (st\<lparr> isLoading := False \<rparr>, db)
      in if select_outcome db 0 = Rejected then caught
         else (let topicsData = select_data (select_outcome db 0)
                                  (order_label db (topics_table (tables db)))
               in if select_outcome db 1 = Rejected then caught
                  else (let aliasesData = select_data (select_outcome db 1)
                                            (topic_aliases_table (tables db))
                        in if select_outcome db 2 = Rejected then caught
                           else (let relationsData = select_data (select_outcome db 2)
                                                       (topic_relations_table (tables db))
                                 in (st\<lparr> topics := topicsWithRelations topicsData aliasesData
                                                      relationsData,
                                         isLoading := False \<rparr>, db)))))"

subsection \<open>Example tables\<close>

definition demo_tables :: taxonomy_tables where
  \<comment> \<open>one topic, Pricing, with the alias Price\<close>
  "demo_tables =
     \<lparr> topics_table =
         [\<lparr> topics_id = ''pricing'', topics_label = ''Pricing'', topics_description = None,
            topics_status = ''active'', topics_created_at = ''2024-01-15T10:30:00.000Z'',
            topics_created_by = Some ''ui'' \<rparr>],
       topic_aliases_table =
         [\<lparr> aliases_alias_id = 1, aliases_alias = ''Price'', aliases_topic_id = ''pricing'',
            aliases_created_at = ''2024-01-15T10:30:00.000Z'' \<rparr>],
       topic_relations_table = [] \<rparr>"

subsection \<open>Example page loads\<close>

definition initial_page :: page_state where
  \<comment> \<open>\<open>useState<Topic[]>([])\<close> and \<open>useState(true)\<close>\<close>
  "initial_page = \<lparr> topics = [], isLoading = True \<rparr>"

definition demo_db :: "(nat \<Rightarrow> outcome) \<Rightarrow> taxonomy_db" where
  \<comment> \<open>the example tables, returned in table order, with the given outcomes of the
      three selects\<close>
  "demo_db outs = \<lparr> tables = demo_tables, order_label = (\<lambda>ts. ts), select_outcome = outs \<rparr>"

definition lists_of :: "page_state \<Rightarrow> (string \<times> string list \<times> string list \<times> string list) list" where
  \<comment> \<open>for every topic of the page: its id, alias list, child-id list and parent-id list\<close>
  "lists_of st = map (\<lambda>t. (topics_id t, aliases t, children t, parents t)) (topics st)"

section \<open>CSV batch ingestion, the date column: \<open>api/ingest/batch/route.ts\<close>\<close>

subsection \<open>The \<open>Date\<close> of the runtime\<close>

text \<open>
  A \<open>Date\<close> holds a time value: the milliseconds since 1970-01-01T00:00:00Z, or NaN
  (\<open>None\<close> here, the Invalid Date). The calendar arithmetic is that of the language
  standard (proleptic Gregorian calendar, days of 86400000 ms).
\<close>

definition days_from_civil :: "int \<Rightarrow> int \<Rightarrow> int \<Rightarrow> int" where
  \<comment> \<open>the day number of year, month (1..12), day of month; day 0 is 1970-01-01\<close>
  "days_from_civil y m d =
     (let y' = (if m \<le> 2 then y - 1 else y);
          era = y' div 400;
          yoe = y' - era * 400;
          doy = (153 * (if m > 2 then m - 3 else m + 9) + 2) div 5 + d - 1;
          doe = yoe * 365 + yoe div 4 - yoe div 100 + doy
      in era * 146097 + doe - 719468)"

definition civil_from_days :: "int \<Rightarrow> int \<times> int \<times> int" where
  \<comment> \<open>year, month and day of month of a day number\<close>
  "civil_from_days z =
     (let z' = z + 719468;
          era = z' div 146097;
          doe = z' - era * 146097;
          yoe = (doe - doe div 1460 + doe div 36524 - doe div 146096) div 365;
          doy = doe - (365 * yoe + yoe div 4 - yoe div 100);
          mp = (5 * doy + 2) div 153;
          d = doy - (153 * mp + 2) div 5 + 1;
          m = (if mp < 10 then mp + 3 else mp - 9);
          y = yoe + era * 400
      in (if m \<le> 2 then y + 1 else y, m, d))"

definition days_in_month :: "int \<Rightarrow> int \<Rightarrow> int" where
  "days_in_month y m =
     (if m = 2 then (if y mod 4 = 0 \<and> (y mod 100 \<noteq> 0 \<or> y mod 400 = 0) then 29 else 28)
      else if m = 4 \<or> m = 6 \<or> m = 9 \<or> m = 11 then 30 else 31)"

definition utc_time :: "int \<Rightarrow> int \<Rightarrow> int \<Rightarrow> int \<Rightarrow> int \<Rightarrow> int \<Rightarrow> int \<Rightarrow> int" where
  \<comment> \<open>the time value of a UTC date and time of day\<close>
  "utc_time y mo d h mi se ms =
     days_from_civil y mo d * 86400000 + h * 3600000 + mi * 60000 + se * 1000 + ms"

definition is_digit :: "char \<Rightarrow> bool" where
  \<comment> \<open>the class \<open>\d\<close>\<close>
  "is_digit c = (48 \<le> (of_char c :: nat) \<and> (of_char c :: nat) \<le> 57)"

definition all_digits :: "string \<Rightarrow> bool" where
  "all_digits s = list_all is_digit s"

definition parse_nat :: "string \<Rightarrow> int" where
  \<comment> \<open>the number a string of digits writes\<close>
  "parse_nat s = foldl (\<lambda>n c. 10 * n + (int (of_char c) - 48)) 0 s"

definition iso_utc_fields :: "string \<Rightarrow> (int \<times> int \<times> int \<times> int \<times> int \<times> int \<times> int) option" where
  \<comment> \<open>the fields of a string of the form \<open>YYYY-MM-DDTHH:mm:ssZ\<close> or
      \<open>YYYY-MM-DDTHH:mm:ss.sssZ\<close>, two of the forms of the standard's date-time format\<close>
  "iso_utc_fields s =
     (if (length s = 20 \<or> length s = 24)
         \<and> all_digits (substring s 0 4) \<and> substring s 4 5 = ''-''
         \<and> all_digits (substring s 5 7) \<and> substring s 7 8 = ''-''
         \<and> all_digits (substring s 8 10) \<and> substring s 10 11 = ''T''
         \<and> all_digits (substring s 11 13) \<and> substring s 13 14 = '':''
         \<and> all_digits (substring s 14 16) \<and> substring s 16 17 = '':''
         \<and> all_digits (substring s 17 19)
         \<and> (if length s = 20 then substring s 19 20 = ''Z''
             else substring s 19 20 = ''.'' \<and> all_digits (substring s 20 23)
                  \<and> substring s 23 24 = ''Z'')
      then Some (parse_nat (substring s 0 4), parse_nat (substring s 5 7),
                 parse_nat (substring s 8 10), parse_nat (substring s 11 13),
                 parse_nat (substring s 14 16), parse_nat (substring s 17 19),
                 (if length s = 20 then 0 else parse_nat (substring s 20 23)))
      else None)"

text \<open>
  \<open>new Date(s)\<close>. For a string in one of the two forms above the standard fixes the
  result: the time value when every field is legal, NaN when a field is out of bounds.
  Engines disagree on a day of month past the end of its month (up to 31), and every other
  string, one of the standard's other forms or not, is left to the engine as well: both
  are the parameter \<open>engine\<close>.
\<close>

definition new_Date :: "(string \<Rightarrow> int option) \<Rightarrow> string \<Rightarrow> int option" where
  "new_Date engine s =
     (case iso_utc_fields s of
        None \<Rightarrow> engine s
      | Some (y, mo, d, h, mi, se, ms) \<Rightarrow>
          if mo < 1 \<or> 12 < mo \<or> d < 1 \<or> 31 < d \<or> 24 < h \<or> 59 < mi \<or> 59 < se
             \<or> (h = 24 \<and> (mi \<noteq> 0 \<or> se \<noteq> 0 \<or> ms \<noteq> 0))
          then None
          else if days_in_month y mo < d then engine s
          else Some (utc_time y mo d h mi se ms))"

fun pad :: "nat \<Rightarrow> nat \<Rightarrow> string" where
  \<comment> \<open>the last \<open>w\<close> decimal digits, with leading zeros\<close>
  "pad 0 n = []"
| "pad (Suc w) n = pad w (n div 10) @ [char_of (48 + n mod 10)]"

definition iso_year :: "int \<Rightarrow> string" where
  \<comment> \<open>four digits for the years 0 to 9999, otherwise a sign and six digits\<close>
  "iso_year y =
     (if 0 \<le> y \<and> y \<le> 9999 then pad 4 (nat y)
      else (if y < 0 then ''-'' else ''+'') @ pad 6 (nat \<bar>y\<bar>))"

definition toISOString :: "int \<Rightarrow> string" where
  \<comment> \<open>\<open>toISOString()\<close> of a valid \<open>Date\<close>\<close>
  "toISOString t =
     (let day = t div 86400000;
          ms_of_day = t - day * 86400000;
          (y, m, d) = civil_from_days day
      in iso_year y @ ''-'' @ pad 2 (nat m) @ ''-'' @ pad 2 (nat d) @ ''T''
         @ pad 2 (nat (ms_of_day div 3600000)) @ '':''
         @ pad 2 (nat (ms_of_day div 60000 mod 60)) @ '':''
         @ pad 2 (nat (ms_of_day div 1000 mod 60)) @ ''.''
         @ pad 3 (nat (ms_of_day mod 1000)) @ ''Z'')"

subsection \<open>The date column\<close>

fun split_char :: "char \<Rightarrow> string \<Rightarrow> string \<Rightarrow> string list" where
  \<comment> \<open>\<open>s.split(sep)\<close> for a separator of one character; the piece being read is
      accumulated in reverse\<close>
  "split_char sep acc [] = [rev acc]"
| "split_char sep acc (c # cs) =
     (if c = sep then rev acc # split_char sep [] cs else split_char sep (c # acc) cs)"

definition padStart :: "nat \<Rightarrow> char \<Rightarrow> string \<Rightarrow> string" where
  \<comment> \<open>\<open>s.padStart(n, c)\<close>\<close>
  "padStart n c s = replicate (n - length s) c @ s"

definition date_only_match :: "string \<Rightarrow> bool" where
  \<comment> \<open>\<open>/^\d{4}-\d{2}-\d{2}$/\<close>: three runs of digits of lengths 4, 2, 2 with a hyphen
      between them. A digit is not a hyphen, so these are the pieces between the hyphens.\<close>
  "date_only_match s =
     (case split_char CHR ''-'' [] s of
        [y, m, d] \<Rightarrow> length y = 4 \<and> all_digits y \<and> length m = 2 \<and> all_digits m
                     \<and> length d = 2 \<and> all_digits d
      | _ \<Rightarrow> False)"

definition slash_date_match :: "string \<Rightarrow> bool" where
  \<comment> \<open>\<open>/^\d{1,2}\/\d{1,2}\/\d{4}$/\<close>, the test of the US branch and of the UK branch\<close>
  "slash_date_match s =
     (case split_char CHR ''/'' [] s of
        [a, b, c] \<Rightarrow> 1 \<le> length a \<and> length a \<le> 2 \<and> all_digits a
                     \<and> 1 \<le> length b \<and> length b \<le> 2 \<and> all_digits b
                     \<and> length c = 4 \<and> all_digits c
      | _ \<Rightarrow> False)"

datatype date_branch = Iso_branch | Date_only_branch | Us_branch | Uk_branch | Generic_branch

definition midnight_utc :: "string \<Rightarrow> string \<Rightarrow> string \<Rightarrow> string" where
  \<comment> \<open>the template \<open>${year}-${month.padStart(2, '0')}-${day.padStart(2, '0')}T00:00:00Z\<close>\<close>
  "midnight_utc year month day =
     year @ ''-'' @ padStart 2 CHR ''0'' month @ ''-'' @ padStart 2 CHR ''0'' day
     @ ''T00:00:00Z''"

definition parsedDate ::
  "(string \<Rightarrow> int option) \<Rightarrow> string \<Rightarrow> (date_branch \<times> int option) option" where
  \<comment> \<open>the chain of formats, lines 70 to 91: the branch taken and the \<open>Date\<close> it builds.
      \<open>None\<close> stands for a TypeError of \<open>padStart\<close> on a piece that the destructuring
      left undefined.\<close>
  "parsedDate engine dateValue =
     (if str_includes dateValue ''T'' \<or> str_includes dateValue ''Z''
      then Some (Iso_branch, new_Date engine dateValue)
      else if date_only_match dateValue
      then Some (Date_only_branch, new_Date engine (dateValue @ ''T00:00:00Z''))
      else if slash_date_match dateValue
      then (case split_char CHR ''/'' [] dateValue of
              month # day # year # _ \<Rightarrow>
                Some (Us_branch, new_Date engine (midnight_utc year month day))
            | _ \<Rightarrow> None)
      else if slash_date_match dateValue
      then (case split_char CHR ''/'' [] dateValue of
              day # month # year # _ \<Rightarrow>
                Some (Uk_branch, new_Date engine (midnight_utc year month day))
            | _ \<Rightarrow> None)
      else Some (Generic_branch, new_Date engine dateValue))"

datatype warning =
  Skipping_date_parsing string
    \<comment> \<open>"Skipping date parsing for session <title>: value looks like content, not a date.
        Using current time."\<close>
| Invalid_date_format string string
    \<comment> \<open>"Invalid date format for session <title>: <value>. Using current time."\<close>
| Failed_to_parse_date string string
    \<comment> \<open>"Failed to parse date for session <title>: <value>. Using current time."\<close>

definition date_column :: "int \<Rightarrow> string list \<Rightarrow> string option" where
  \<comment> \<open>\<open>values[dateIndex]\<close>, with \<open>dateIndex\<close> -1 when the header has no date column\<close>
  "date_column dateIndex values =
     (if 0 \<le> dateIndex \<and> nat dateIndex < length values
      then Some (values ! nat dateIndex) else None)"

definition startedAt_of ::
  "(string \<Rightarrow> int option) \<Rightarrow> int \<Rightarrow> string \<Rightarrow> int \<Rightarrow> string list \<Rightarrow> string \<times> warning list"
where
  \<comment> \<open>lines 58 to 103 for one row: \<open>startedAt\<close> and what \<open>console.warn\<close> was given;
      \<open>now\<close> is the time value of \<open>new Date()\<close>\<close>
  "startedAt_of engine now title dateIndex values =
     (let startedAt = toISOString now
      in if dateIndex \<ge> 0 \<and> truthy (date_column dateIndex values)
         then (case date_column dateIndex values of
                 None \<Rightarrow> (startedAt, [])
               | Some dateValue \<Rightarrow>
                   if length dateValue > 50 \<or> str_includes dateValue ''<''
                      \<or> str_includes dateValue ''>''
                   then (startedAt, [Skipping_date_parsing title])
                   else (case parsedDate engine dateValue of
                           None \<Rightarrow> (startedAt, [Failed_to_parse_date title dateValue])
                         | Some (branch, None) \<Rightarrow>
                             (startedAt, [Invalid_date_format title dateValue])
                         | Some (branch, Some t) \<Rightarrow> (toISOString t, [])))
         else (startedAt, []))"

section \<open>Properties\<close>

subsection \<open>Environment probe\<close>

text \<open>
  C9. The probe answers with a boolean for each of the two keys (the publishable key and the
  secret key) and with nothing else that depends on them: two environments that agree on
  the public URL and on which keys are set to a non-empty value get the same response,
  whatever the values of the keys are. The booleans are exactly the presence tests, and the
  only string of the response is the value of the public URL variable.
\<close>

theorem env_GET_hides_secret_values:
  assumes "env1 ''NEXT_PUBLIC_SUPABASE_URL'' = env2 ''NEXT_PUBLIC_SUPABASE_URL''"
    and "truthy (env1 ''NEXT_PUBLIC_SUPABASE_PUBLISHABLE_KEY'')
         = truthy (env2 ''NEXT_PUBLIC_SUPABASE_PUBLISHABLE_KEY'')"
    and "truthy (env1 ''SUPABASE_SECRET_KEY'') = truthy (env2 ''SUPABASE_SECRET_KEY'')"
  shows "env_GET env1 = env_GET env2
         \<and> anon (env_GET env1) = truthy (env1 ''NEXT_PUBLIC_SUPABASE_PUBLISHABLE_KEY'')
         \<and> service (env_GET env1) = truthy (env1 ''SUPABASE_SECRET_KEY'')
         \<and> url (env_GET env1) = env1 ''NEXT_PUBLIC_SUPABASE_URL''"
  using assms by (simp add: env_GET_def)

theorem env_GET_hides_secret_values_witness:
  "env_GET (Map.empty(''NEXT_PUBLIC_SUPABASE_URL'' \<mapsto> ''https://x.supabase.co'',
                      ''SUPABASE_SECRET_KEY'' \<mapsto> ''sb_secret_1''))
   = env_GET (Map.empty(''NEXT_PUBLIC_SUPABASE_URL'' \<mapsto> ''https://x.supabase.co'',
                        ''SUPABASE_SECRET_KEY'' \<mapsto> ''sb_secret_2''))
   \<and> service (env_GET (Map.empty(''NEXT_PUBLIC_SUPABASE_URL'' \<mapsto> ''https://x.supabase.co'',
                                 ''SUPABASE_SECRET_KEY'' \<mapsto> ''sb_secret_1'')))
   \<and> \<not> anon (env_GET (Map.empty(''NEXT_PUBLIC_SUPABASE_URL'' \<mapsto> ''https://x.supabase.co'',
                                ''SUPABASE_SECRET_KEY'' \<mapsto> ''sb_secret_1'')))"
  using env_GET_hides_secret_values
          [of "Map.empty(''NEXT_PUBLIC_SUPABASE_URL'' \<mapsto> ''https://x.supabase.co'',
                         ''SUPABASE_SECRET_KEY'' \<mapsto> ''sb_secret_1'')"
              "Map.empty(''NEXT_PUBLIC_SUPABASE_URL'' \<mapsto> ''https://x.supabase.co'',
                         ''SUPABASE_SECRET_KEY'' \<mapsto> ''sb_secret_2'')"]
  by (simp add: truthy_def env_GET_def)

subsection \<open>Ingestion fallback\<close>

lemma candidate_labels:
  "map cand_label (basicCandidates sid raw) =
     (let text = toLowerCase raw
      in if \<not> product_group text \<and> \<not> user_group text \<and> \<not> planning_group text
         then [''General Discussion'']
         else (if product_group text then [''Product Development''] else [])
            @ (if user_group text then [''User Feedback''] else [])
            @ (if planning_group text then [''Planning & Timeline''] else []))"
  by (simp add: basicCandidates_def matched_candidates_def keyword_candidate_def
        general_candidate_def Let_def)

lemma candidates_pending:
  "c \<in> set (basicCandidates sid raw) \<Longrightarrow> cand_status c = ''pending''"
  by (auto simp: basicCandidates_def matched_candidates_def keyword_candidate_def
        general_candidate_def Let_def split: if_splits)

text \<open>
  C6, as the code has it. The "User Feedback" group is matched by any of "user",
  "feedback" and "customer", so the absence of "user" alone does not keep it out. For
  every text whose lowercasing contains "feature" and "timeline" and none of "user",
  "feedback", "customer", the candidates are exactly "Product Development" and
  "Planning & Timeline", in this order. In general there is one candidate per matched
  keyword group, in the order product, user, planning, and the single candidate
  "General Discussion" when no group matches.
\<close>

theorem keyword_fallback_candidates:
  "(str_includes (toLowerCase raw) ''feature'' \<and> str_includes (toLowerCase raw) ''timeline''
      \<and> \<not> str_includes (toLowerCase raw) ''user''
      \<and> \<not> str_includes (toLowerCase raw) ''feedback''
      \<and> \<not> str_includes (toLowerCase raw) ''customer''
    \<longrightarrow> map cand_label (basicCandidates sid raw)
          = [''Product Development'', ''Planning & Timeline''])
   \<and> map cand_label (basicCandidates sid raw) =
       (if \<not> product_group (toLowerCase raw) \<and> \<not> user_group (toLowerCase raw)
           \<and> \<not> planning_group (toLowerCase raw)
        then [''General Discussion'']
        else (if product_group (toLowerCase raw) then [''Product Development''] else [])
           @ (if user_group (toLowerCase raw) then [''User Feedback''] else [])
           @ (if planning_group (toLowerCase raw) then [''Planning & Timeline''] else []))"
  by (simp add: candidate_labels Let_def product_group_def user_group_def planning_group_def)

theorem keyword_fallback_candidates_witness:
  "str_includes (toLowerCase ''New Feature, tight timeline'') ''feature''
   \<and> str_includes (toLowerCase ''New Feature, tight timeline'') ''timeline''
   \<and> \<not> str_includes (toLowerCase ''New Feature, tight timeline'') ''user''
   \<and> \<not> str_includes (toLowerCase ''New Feature, tight timeline'') ''feedback''
   \<and> \<not> str_includes (toLowerCase ''New Feature, tight timeline'') ''customer''
   \<and> map cand_label (basicCandidates ''s1'' ''New Feature, tight timeline'')
       = [''Product Development'', ''Planning & Timeline'']"
proof -
  have h: "str_includes (toLowerCase ''New Feature, tight timeline'') ''feature''
     \<and> str_includes (toLowerCase ''New Feature, tight timeline'') ''timeline''
     \<and> \<not> str_includes (toLowerCase ''New Feature, tight timeline'') ''user''
     \<and> \<not> str_includes (toLowerCase ''New Feature, tight timeline'') ''feedback''
     \<and> \<not> str_includes (toLowerCase ''New Feature, tight timeline'') ''customer''"
    by code_simp
  from keyword_fallback_candidates [of "''New Feature, tight timeline''" "''s1''"] h
  show ?thesis by blast
qed

text \<open>
  The claim C6 as stated fails: a text with "feature", "timeline" and "feedback" has no
  "user" in it and still gets the "User Feedback" candidate.
\<close>

theorem keyword_fallback_user_feedback_counterexample:
  "str_includes (toLowerCase ''feature timeline feedback'') ''feature''
   \<and> str_includes (toLowerCase ''feature timeline feedback'') ''timeline''
   \<and> \<not> str_includes (toLowerCase ''feature timeline feedback'') ''user''
   \<and> map cand_label (basicCandidates ''s1'' ''feature timeline feedback'')
       = [''Product Development'', ''User Feedback'', ''Planning & Timeline'']"
  by code_simp

text \<open>
  C10. On the fallback path, whatever the raw text is, at least one chunk row and at least
  one candidate row are built for insertion, and every candidate row is pending. When the
  sentence windows give no chunk, the chunk list is the single chunk holding the first
  2000 characters of the raw text; when no keyword group matches, the candidate list is
  the single "General Discussion" candidate.
\<close>

theorem fallback_rows_nonempty:
  "basicChunks sid raw \<noteq> [] \<and> basicCandidates sid raw \<noteq> []
   \<and> (\<forall>c \<in> set (basicCandidates sid raw). cand_status c = ''pending'')
   \<and> (window_chunks sid raw = [] \<longrightarrow>
        basicChunks sid raw
        = [\<lparr> chunk_session_id = sid, chunk_text = take 2000 raw, start_sec = 0,
              end_sec = None \<rparr>])
   \<and> (\<not> product_group (toLowerCase raw) \<and> \<not> user_group (toLowerCase raw)
        \<and> \<not> planning_group (toLowerCase raw) \<longrightarrow>
        basicCandidates sid raw = [general_candidate sid raw]
        \<and> cand_label (general_candidate sid raw) = ''General Discussion'')"
proof -
  have chunks: "basicChunks sid raw \<noteq> []"
    by (simp add: basicChunks_def Let_def)
  have cands: "basicCandidates sid raw \<noteq> []"
    by (simp add: basicCandidates_def Let_def)
  have single: "window_chunks sid raw = [] \<longrightarrow>
        basicChunks sid raw
        = [\<lparr> chunk_session_id = sid, chunk_text = take 2000 raw, start_sec = 0,
              end_sec = None \<rparr>]"
    by (simp add: basicChunks_def substring_def Let_def)
  have general: "\<not> product_group (toLowerCase raw) \<and> \<not> user_group (toLowerCase raw)
        \<and> \<not> planning_group (toLowerCase raw) \<longrightarrow>
        basicCandidates sid raw = [general_candidate sid raw]
        \<and> cand_label (general_candidate sid raw) = ''General Discussion''"
    by (simp add: basicCandidates_def matched_candidates_def general_candidate_def Let_def)
  from chunks cands single general candidates_pending show ?thesis
    by blast
qed

theorem fallback_rows_nonempty_witness:
  "window_chunks ''s1'' ''ok'' = []
   \<and> \<not> product_group (toLowerCase ''ok'') \<and> \<not> user_group (toLowerCase ''ok'')
   \<and> \<not> planning_group (toLowerCase ''ok'')
   \<and> basicChunks ''s1'' ''ok''
       = [\<lparr> chunk_session_id = ''s1'', chunk_text = take 2000 ''ok'', start_sec = 0,
             end_sec = None \<rparr>]
   \<and> basicCandidates ''s1'' ''ok'' = [general_candidate ''s1'' ''ok'']
   \<and> cand_status (general_candidate ''s1'' ''ok'') = ''pending''"
proof -
  have h1: "window_chunks ''s1'' ''ok'' = []"
    by code_simp
  have h2: "\<not> product_group (toLowerCase ''ok'') \<and> \<not> user_group (toLowerCase ''ok'')
     \<and> \<not> planning_group (toLowerCase ''ok'')"
    by code_simp
  from fallback_rows_nonempty [of "''s1''" "''ok''"] h1 h2
  have all: "basicChunks ''s1'' ''ok''
       = [\<lparr> chunk_session_id = ''s1'', chunk_text = take 2000 ''ok'', start_sec = 0,
             end_sec = None \<rparr>]
     \<and> basicCandidates ''s1'' ''ok'' = [general_candidate ''s1'' ''ok'']
     \<and> (\<forall>c \<in> set (basicCandidates ''s1'' ''ok''). cand_status c = ''pending'')"
    by blast
  then have "cand_status (general_candidate ''s1'' ''ok'') = ''pending''"
    by simp
  with all h1 h2 show ?thesis
    by blast
qed

subsection \<open>Candidate approval\<close>

lemma event_statements_Nil: "event_statements [] = []"
  by (simp add: event_statements_def)

lemma event_statements_Cons:
  "event_statements ((st, out) # tr) =
     (case st of Insert_event e \<Rightarrow> [e] | _ \<Rightarrow> []) @ event_statements tr"
  by (simp add: event_statements_def)

lemma event_statements_append:
  "event_statements (tr @ tr') = event_statements tr @ event_statements tr'"
  by (simp add: event_statements_def)

lemma approved_statement_no_event:
  "(case approved_statement candidate d of Insert_event e \<Rightarrow> [e] | _ \<Rightarrow> []) = []"
  by (simp add: approved_statement_def)

lemmas event_simps =
  event_statements_Nil event_statements_Cons event_statements_append
  approved_statement_no_event

lemma approved_writes_events:
  assumes "\<forall>k. outcome_of env k \<noteq> Rejected"
  shows "fst (approved_writes env d tr)
         \<and> event_statements (snd (approved_writes env d tr)) = event_statements tr"
  using assms by (simp add: approved_writes_def db_call_def Let_def event_simps)

lemma decision_step_events:
  assumes "\<forall>k. outcome_of env k \<noteq> Rejected"
  shows "fst (decision_step env d tr)
         \<and> event_statements (snd (decision_step env d tr))
             = event_statements tr @ [status_event d]"
  using assms approved_writes_events [OF assms, of d]
  by (simp add: decision_step_def db_call_def Let_def split_beta event_simps)

lemma decisions_loop_events:
  assumes "\<forall>k. outcome_of env k \<noteq> Rejected"
  shows "fst (decisions_loop env ds tr)
         \<and> event_statements (snd (decisions_loop env ds tr))
             = event_statements tr @ map status_event ds"
proof (induction ds arbitrary: tr)
  case Nil
  then show ?case by simp
next
  case (Cons d ds)
  from decision_step_events [OF assms, of d tr] Cons.IH [of "snd (decision_step env d tr)"]
  show ?case by (simp add: split_beta Let_def)
qed

text \<open>
  When no call throws, the request succeeds and the inserts into \<open>events\<close> it issues are
  one status event per decision, the summary event and, when the flag is set, the chunk+tag
  request; a call that resolves with an error changes nothing of this.
\<close>

lemma commit_event_statements:
  assumes "\<forall>k. outcome_of env k \<noteq> Rejected"
  shows "fst (commit_POST env ds) = Json_success
     \<and> event_statements (snd (commit_POST env ds)) =
        (if ds = [] then []
         else map status_event ds @ [taxonomy_event ds]
              @ (if autoChunkTag (if outcome_of env 0 = Applied then config_row env else None)
                 then [chunk_tag_event ds] else []))"
  using assms decisions_loop_events [OF assms, of ds "[(Select_config, outcome_of env 0)]"]
  by (simp add: commit_POST_def db_call_def Let_def split_beta event_simps)

lemma all_applied_approved_writes:
  assumes "\<forall>k. outcome_of env k = Applied" and "\<forall>x \<in> set tr. snd x = Applied"
  shows "\<forall>x \<in> set (snd (approved_writes env d tr)). snd x = Applied"
  using assms by (simp add: approved_writes_def db_call_def Let_def)

lemma all_applied_decision_step:
  assumes "\<forall>k. outcome_of env k = Applied" and "\<forall>x \<in> set tr. snd x = Applied"
  shows "\<forall>x \<in> set (snd (decision_step env d tr)). snd x = Applied"
proof -
  have tr1: "\<forall>x \<in> set (tr @ [(st, Applied)]). snd x = Applied" for st :: statement
    using assms(2) by simp
  have "\<forall>x \<in> set (snd (approved_writes env d (tr @ [(st, Applied)]))). snd x = Applied"
    for st :: statement
    using all_applied_approved_writes [OF assms(1) tr1] by simp
  with assms show ?thesis
    by (simp add: decision_step_def db_call_def Let_def split_beta)
qed

lemma all_applied_decisions_loop:
  assumes "\<forall>k. outcome_of env k = Applied"
  shows "\<forall>x \<in> set tr. snd x = Applied
         \<Longrightarrow> \<forall>x \<in> set (snd (decisions_loop env ds tr)). snd x = Applied"
proof (induction ds arbitrary: tr)
  case Nil
  then show ?case by simp
next
  case (Cons d ds)
  from all_applied_decision_step [OF assms Cons.prems, of d]
  have "\<forall>x \<in> set (snd (decisions_loop env ds (snd (decision_step env d tr)))). snd x = Applied"
    by (rule Cons.IH)
  with all_applied_decision_step [OF assms Cons.prems, of d] show ?case
    by (simp add: split_beta Let_def)
qed

lemma all_applied_commit:
  assumes "\<forall>k. outcome_of env k = Applied"
  shows "\<forall>x \<in> set (snd (commit_POST env ds)). snd x = Applied"
proof -
  have "\<forall>x \<in> set [(Select_config, Applied)]. snd x = Applied"
    by simp
  from all_applied_decisions_loop [OF assms this, of ds] assms show ?thesis
    by (simp add: commit_POST_def db_call_def Let_def split_beta)
qed

lemma inserted_events_all_applied:
  assumes "\<forall>k. outcome_of env k = Applied"
  shows "inserted_events (snd (commit_POST env ds)) = event_statements (snd (commit_POST env ds))"
proof -
  from all_applied_commit [OF assms, of ds]
  have "filter (\<lambda>(st, out). out = Applied) (snd (commit_POST env ds)) = snd (commit_POST env ds)"
    by (auto simp: filter_id_conv)
  then show ?thesis by (simp add: inserted_events_def)
qed

text \<open>
  C1. The claim is that a failed database write aborts the request with the generic 500
  response. The route never reads the \<open>error\<close> of a write, so a write that the database
  refuses goes unnoticed: here the update of the candidate fails, both events are inserted
  all the same and the caller is told \<open>success: true\<close>.
\<close>

theorem commit_ignores_failed_write:
  "commit_POST (demo_env (\<lambda>k. if k = 1 then Failed else Applied) False)
     [demo_decision ''rejected'' None None]
   = (Json_success,
      [(Select_config, Applied),
       (demo_update ''rejected'', Failed),
       (Insert_event (status_event (demo_decision ''rejected'' None None)), Applied),
       (Insert_event (taxonomy_event [demo_decision ''rejected'' None None]), Applied)])"
  by (simp add: commit_POST_def decision_step_def db_call_def demo_env_def demo_decision_def
       demo_update_def autoChunkTag_def Let_def)

text \<open>
  Only a call whose promise rejects reaches the \<open>catch\<close>: the request then stops at that
  call and answers 500, and what was written before stays written.
\<close>

lemma commit_rejected_write_aborts:
  "commit_POST (demo_env (\<lambda>k. if k = 3 then Rejected else Applied) False)
     [demo_decision ''rejected'' None None, demo_decision ''approved'' None None]
   = (Json_error ''Failed to commit approvals'' 500,
      [(Select_config, Applied),
       (demo_update ''rejected'', Applied),
       (Insert_event (status_event (demo_decision ''rejected'' None None)), Applied),
       (demo_update ''approved'', Rejected)])"
  by (simp add: commit_POST_def decision_step_def db_call_def demo_env_def demo_decision_def
       demo_update_def autoChunkTag_def failed_to_commit_def Let_def)

text \<open>
  C2, as the code has it. When every database call of the request succeeds, a batch of N
  decisions inserts into \<open>events\<close> one \<open>candidate_status_changed\<close> row per decision, in the
  order of the batch, then one \<open>taxonomy_applied\<close> row carrying N, then, when the setting
  \<open>auto_chunk_tag_after_approval\<close> is on, one \<open>chunk_tag_requested\<close> row: N + 1 rows with
  the setting off, N + 2 with it on, and none at all for the empty batch.
\<close>

theorem commit_event_rows:
  assumes "\<forall>k. outcome_of env k = Applied"
  shows "fst (commit_POST env decisions) = Json_success
     \<and> inserted_events (snd (commit_POST env decisions)) =
        (if decisions = [] then []
         else map status_event decisions @ [taxonomy_event decisions]
              @ (if autoChunkTag (config_row env) then [chunk_tag_event decisions] else []))
     \<and> length (inserted_events (snd (commit_POST env decisions))) =
        (if decisions = [] then 0
         else length decisions + 1 + (if autoChunkTag (config_row env) then 1 else 0))
     \<and> payload_json (taxonomy_event decisions) = Count (length decisions)"
proof -
  from assms have "\<forall>k. outcome_of env k \<noteq> Rejected"
    by simp
  from commit_event_statements [OF this, of decisions]
    inserted_events_all_applied [OF assms, of decisions] assms
  show ?thesis
    by (simp add: taxonomy_event_def)
qed

theorem commit_event_rows_witness:
  "map event_type (inserted_events (snd (commit_POST (demo_env (\<lambda>k. Applied) False)
       [demo_decision ''rejected'' None None, demo_decision ''approved'' None None])))
   = [''candidate_status_changed'', ''candidate_status_changed'', ''taxonomy_applied'']"
proof -
  have h: "\<forall>k. outcome_of (demo_env (\<lambda>k. Applied) False) k = Applied"
    by (simp add: demo_env_def)
  have a: "\<not> autoChunkTag (config_row (demo_env (\<lambda>k. Applied) False))"
    by (simp add: demo_env_def autoChunkTag_def)
  from commit_event_rows [OF h,
      of "[demo_decision ''rejected'' None None, demo_decision ''approved'' None None]"] a
  show ?thesis
    by (simp add: status_event_def taxonomy_event_def)
qed

text \<open>
  The claim C2 as stated fails when the setting is on: a batch of one decision inserts
  three rows, not two.
\<close>

theorem commit_event_rows_counterexample:
  "length (inserted_events (snd (commit_POST (demo_env (\<lambda>k. Applied) True)
       [demo_decision ''rejected'' None None])))
   \<noteq> length [demo_decision ''rejected'' None None] + 1"
  by (simp add: commit_POST_def decision_step_def db_call_def demo_env_def demo_decision_def
       inserted_events_def event_statements_def autoChunkTag_def Let_def)





subsection \<open>Taxonomy page\<close>

text \<open>
  Loading the page changes nothing in the database, and two loads whose selects end the
  same way give the same page state.
\<close>

lemma load_same_outcomes_idempotent:
  "snd (load db st) = db \<and> load db (fst (load db st)) = load db st"
  by (simp add: load_def Let_def)

text \<open>
  A select that throws is caught: the topics already on the page stay.
\<close>

lemma load_rejected_select_keeps_lists:
  "lists_of (fst (load (demo_db (\<lambda>k. if k = 1 then Rejected else Applied))
                   (fst (load (demo_db (\<lambda>k. Applied)) initial_page))))
   = [(''pricing'', [''Price''], [], [])]"
  by (simp add: load_def lists_of_def demo_db_def demo_tables_def initial_page_def
        topicsWithRelations_def select_data_def or_empty_def Let_def)

text \<open>
  C8. The claim is that repeated loads over unchanged tables give the same alias lists,
  child-id lists and parent-id lists. The page never reads the \<open>error\<close> of a select and
  takes null data for an empty table: over the very same tables, a second load whose
  select of the aliases is refused replaces the alias list \<open>[Price]\<close> of the topic by the
  empty list.
\<close>

theorem load_ignores_failed_select:
  "tables (demo_db (\<lambda>k. if k = 1 then Failed else Applied)) = tables (demo_db (\<lambda>k. Applied))
   \<and> lists_of (fst (load (demo_db (\<lambda>k. Applied)) initial_page))
     = [(''pricing'', [''Price''], [], [])]
   \<and> lists_of (fst (load (demo_db (\<lambda>k. if k = 1 then Failed else Applied))
                     (fst (load (demo_db (\<lambda>k. Applied)) initial_page))))
     = [(''pricing'', [], [], [])]"
  by (simp add: load_def lists_of_def demo_db_def demo_tables_def initial_page_def
        topicsWithRelations_def select_data_def or_empty_def Let_def)

subsection \<open>Uniqueness ignoring case\<close>

lemma distinct_map_replace:
  assumes "distinct (map k ts)" and "distinct (map g ts)"
    and "\<forall>t \<in> set ts. k t \<noteq> i \<longrightarrow> g t \<noteq> v"
  shows "distinct (map (\<lambda>t. if k t = i then v else g t) ts)"
proof -
  define h where "h = (\<lambda>t. if k t = i then v else g t)"
  from assms have "distinct (map h ts)"
  proof (induction ts)
    case Nil
    then show ?case by simp
  next
    case (Cons t ts)
    then have IH: "distinct (map h ts)"
      by simp
    have "h t \<noteq> h t'" if "t' \<in> set ts" for t'
    proof (cases "k t = i")
      case True
      with Cons.prems(1) that have "k t' \<noteq> i" by (auto simp: image_iff)
      with True Cons.prems(3) that show ?thesis by (auto simp: h_def)
    next
      case False
      with Cons.prems(2,3) that show ?thesis by (auto simp: image_iff h_def)
    qed
    then have "h t \<notin> h ` set ts"
      by blast
    with IH show ?case by simp
  qed
  then show ?thesis by (simp add: h_def)
qed


lemma upsert_topics_preserves:
  assumes inv: "unique_ignoring_case lower db"
    and ok: "upsert_topics lower now u db = Inr db'"
  shows "unique_ignoring_case lower db'"
proof -
  let ?others = "filter (\<lambda>t. topics_id t \<noteq> new_id u) (topics_table db)"
  let ?upd = "\<lambda>t. if topics_id t = new_id u
                   then t\<lparr> topics_label := new_label u,
                          topics_created_by := Some (created_by u) \<rparr>
                   else t"
  from ok have fresh: "lower (new_label u) \<notin> set (map (\<lambda>t. lower (topics_label t)) ?others)"
    by (simp add: upsert_topics_def Let_def split: if_splits)
  from inv have pk: "distinct (map topics_id (topics_table db))"
    and uq: "distinct (map (\<lambda>t. lower (topics_label t)) (topics_table db))"
    and al: "uq_topic_aliases lower (topic_aliases_table db)"
    by (simp_all add: unique_ignoring_case_def topics_pkey_def uq_topics_label_def)
  show ?thesis
  proof (cases "new_id u \<in> set (map topics_id (topics_table db))")
    case True
    with ok fresh have db': "db' = db\<lparr> topics_table := map ?upd (topics_table db) \<rparr>"
      by (simp add: upsert_topics_def Let_def split: if_splits)
    have ids: "map topics_id (map ?upd (topics_table db)) = map topics_id (topics_table db)"
      by (induction "topics_table db") simp_all
    have labels: "map (\<lambda>t. lower (topics_label t)) (map ?upd (topics_table db))
        = map (\<lambda>t. if topics_id t = new_id u then lower (new_label u)
                     else lower (topics_label t)) (topics_table db)"
      by simp
    have "\<forall>t \<in> set (topics_table db). topics_id t \<noteq> new_id u \<longrightarrow>
        lower (topics_label t) \<noteq> lower (new_label u)"
    proof (intro ballI impI)
      fix t
      assume "t \<in> set (topics_table db)" and "topics_id t \<noteq> new_id u"
      then have "lower (topics_label t) \<in> set (map (\<lambda>t. lower (topics_label t)) ?others)"
        by simp
      with fresh show "lower (topics_label t) \<noteq> lower (new_label u)"
        by metis
    qed
    then have uq': "uq_topics_label lower (map ?upd (topics_table db))"
      unfolding uq_topics_label_def labels by (rule distinct_map_replace [OF pk uq])
    have pk': "topics_pkey (map ?upd (topics_table db))"
      unfolding topics_pkey_def ids by (rule pk)
    from db' pk' uq' al show ?thesis
      by (simp add: unique_ignoring_case_def)
  next
    case False
    then have "\<forall>t \<in> set (topics_table db). topics_id t \<noteq> new_id u"
      by (metis image_eqI list.set_map)
    then have all: "?others = topics_table db"
      by (simp add: filter_id_conv)
    from False ok fresh have db': "db' = db\<lparr> topics_table := topics_table db @
                 [\<lparr> topics_id = new_id u, topics_label = new_label u,
                    topics_description = None, topics_status = ''active'',
                    topics_created_at = now,
                    topics_created_by = Some (created_by u) \<rparr>] \<rparr>"
      by (simp add: upsert_topics_def Let_def split: if_splits)
    from fresh all
    have "lower (new_label u) \<notin> set (map (\<lambda>t. lower (topics_label t)) (topics_table db))"
      by simp
    with db' False pk uq al show ?thesis
      by (simp add: unique_ignoring_case_def topics_pkey_def uq_topics_label_def)
  qed
qed


lemma upsert_topic_aliases_preserves:
  assumes inv: "unique_ignoring_case lower db"
    and ok: "upsert_topic_aliases lower now v db = Inr db'"
  shows "unique_ignoring_case lower db'"
proof -
  from ok obtain tid where tid: "topic_id v = Some tid"
    by (cases "topic_id v") (simp_all add: upsert_topic_aliases_def)
  let ?row = "\<lparr> aliases_alias_id = gen_alias_id (topic_aliases_table db),
                aliases_alias = alias' v, aliases_topic_id = tid,
                aliases_created_at = now \<rparr>"
  from ok tid have fresh: "(tid, lower (alias' v))
       \<notin> set (map (\<lambda>a. (aliases_topic_id a, lower (aliases_alias a)))
                (topic_aliases_table db))"
    by (simp add: upsert_topic_aliases_def split: if_splits)
  from ok tid have db': "db' = db\<lparr> topic_aliases_table := topic_aliases_table db @ [?row] \<rparr>"
    by (simp add: upsert_topic_aliases_def split: if_splits)
  from inv fresh have "uq_topic_aliases lower (topic_aliases_table db @ [?row])"
    by (simp add: unique_ignoring_case_def uq_topic_aliases_def)
  with inv db' show ?thesis
    by (simp add: unique_ignoring_case_def)
qed

lemma upsert_topic_relations_preserves:
  assumes inv: "unique_ignoring_case lower db"
    and ok: "upsert_topic_relations w db = Inr db'"
  shows "unique_ignoring_case lower db'"
proof -
  from ok obtain rs where "db' = db\<lparr> topic_relations_table := rs \<rparr>"
    by (cases "parent_id w") (auto simp: upsert_topic_relations_def split: if_splits)
  with inv show ?thesis
    by (simp add: unique_ignoring_case_def)
qed

lemma execute_preserves:
  assumes inv: "unique_ignoring_case lower db"
    and ok: "execute lower now st db = Inr db'"
  shows "unique_ignoring_case lower db'"
proof (cases st)
  case (Upsert_alias v)
  with ok have "upsert_topic_aliases lower now v db = Inr db'"
    by (simp add: execute_def)
  with inv show ?thesis by (rule upsert_topic_aliases_preserves)
next
  case (Upsert_relation w)
  with ok have "upsert_topic_relations w db = Inr db'"
    by (simp add: execute_def)
  with inv show ?thesis by (rule upsert_topic_relations_preserves)
next
  case (Upsert_topic u)
  with ok have "upsert_topics lower now u db = Inr db'"
    by (simp add: execute_def)
  with inv show ?thesis by (rule upsert_topics_preserves)
qed (use inv ok in \<open>simp_all add: execute_def\<close>)

lemma second_topic_rejected:
  assumes "t \<in> set (topics_table db)"
    and "lower (new_label u) = lower (topics_label t)"
    and "new_id u \<noteq> topics_id t"
  shows "execute lower now (Upsert_topic u) db = Inl (Unique_violation ''uq_topics_label'')"
proof -
  from assms(1,3)
  have "t \<in> set (filter (\<lambda>t. topics_id t \<noteq> new_id u) (topics_table db))"
    by simp
  then have "lower (topics_label t)
      \<in> (\<lambda>t. lower (topics_label t))
          ` set (filter (\<lambda>t. topics_id t \<noteq> new_id u) (topics_table db))"
    by (rule imageI)
  then have "lower (topics_label t)
      \<in> set (map (\<lambda>t. lower (topics_label t))
              (filter (\<lambda>t. topics_id t \<noteq> new_id u) (topics_table db)))"
    by (simp only: set_map)
  with assms(2) show ?thesis
    by (simp add: execute_def upsert_topics_def Let_def)
qed

lemma second_alias_rejected:
  assumes "a \<in> set (topic_aliases_table db)"
    and "topic_id v = Some (aliases_topic_id a)"
    and "lower (alias' v) = lower (aliases_alias a)"
  shows "execute lower now (Upsert_alias v) db
         \<in> {Inl (Unique_violation ''topic_aliases_alias_key''),
            Inl (Unique_violation ''uq_topic_aliases'')}"
proof -
  from assms(1)
  have "(aliases_topic_id a, lower (aliases_alias a))
      \<in> (\<lambda>a. (aliases_topic_id a, lower (aliases_alias a)))
          ` set (topic_aliases_table db)"
    by (rule imageI)
  then have "(aliases_topic_id a, lower (aliases_alias a))
      \<in> set (map (\<lambda>a. (aliases_topic_id a, lower (aliases_alias a)))
              (topic_aliases_table db))"
    by (simp only: set_map)
  with assms(2,3) show ?thesis
    by (simp add: execute_def upsert_topic_aliases_def)
qed


text \<open>
  C7. In tables where topic ids are a key, topic labels are unique ignoring case and the
  aliases of each topic are unique ignoring case:
  \<^item> every statement of the approval route that the database executes leaves the tables
    with the same three properties;
  \<^item> an upsert of a topic under another id whose label differs from an existing label
    at most in case is rejected by the unique index \<open>uq_topics_label\<close>;
  \<^item> an upsert of an alias for a topic that has an alias differing at most in case is
    rejected by a unique constraint (\<open>uq_topic_aliases\<close>, or the one on \<open>alias\<close> when the
    two texts are equal).
\<close>

theorem unique_ignoring_case_enforced:
  assumes "unique_ignoring_case lower db"
  shows "(\<forall>db'. execute lower now st db = Inr db' \<longrightarrow> unique_ignoring_case lower db')
     \<and> (\<forall>t \<in> set (topics_table db).
          lower (new_label u) = lower (topics_label t) \<and> new_id u \<noteq> topics_id t \<longrightarrow>
          execute lower now (Upsert_topic u) db = Inl (Unique_violation ''uq_topics_label''))
     \<and> (\<forall>a \<in> set (topic_aliases_table db).
          topic_id v = Some (aliases_topic_id a) \<and> lower (alias' v) = lower (aliases_alias a) \<longrightarrow>
          execute lower now (Upsert_alias v) db
          \<in> {Inl (Unique_violation ''topic_aliases_alias_key''),
             Inl (Unique_violation ''uq_topic_aliases'')})"
  using assms execute_preserves second_topic_rejected second_alias_rejected
  by blast

theorem unique_ignoring_case_enforced_witness:
  "unique_ignoring_case toLowerCase demo_tables
   \<and> execute toLowerCase ''2024-02-01T00:00:00.000Z''
         (Upsert_topic \<lparr> new_id = ''pricing-2'', new_label = ''PRICING'', created_by = ''ui'' \<rparr>)
         demo_tables
       = Inl (Unique_violation ''uq_topics_label'')
   \<and> execute toLowerCase ''2024-02-01T00:00:00.000Z''
         (Upsert_alias \<lparr> topic_id = Some ''pricing'', alias' = ''PRICE'' \<rparr>) demo_tables
       \<in> {Inl (Unique_violation ''topic_aliases_alias_key''),
          Inl (Unique_violation ''uq_topic_aliases'')}
   \<and> unique_ignoring_case toLowerCase
         (demo_tables\<lparr> topics_table := topics_table demo_tables @
            [\<lparr> topics_id = ''billing'', topics_label = ''Billing'',
               topics_description = None, topics_status = ''active'',
               topics_created_at = ''2024-02-01T00:00:00.000Z'',
               topics_created_by = Some ''ui'' \<rparr>] \<rparr>)"
proof -
  let ?now = "''2024-02-01T00:00:00.000Z''"
  let ?t = "\<lparr> topics_id = ''pricing'', topics_label = ''Pricing'', topics_description = None,
            topics_status = ''active'', topics_created_at = ''2024-01-15T10:30:00.000Z'',
            topics_created_by = Some ''ui'' \<rparr>"
  let ?a = "\<lparr> aliases_alias_id = 1, aliases_alias = ''Price'', aliases_topic_id = ''pricing'',
            aliases_created_at = ''2024-01-15T10:30:00.000Z'' \<rparr>"
  let ?u = "\<lparr> new_id = ''pricing-2'', new_label = ''PRICING'', created_by = ''ui'' \<rparr>"
  let ?v = "\<lparr> topic_id = Some ''pricing'', alias' = ''PRICE'' \<rparr>"
  let ?b = "\<lparr> new_id = ''billing'', new_label = ''Billing'', created_by = ''ui'' \<rparr>"
  have lo: "toLowerCase ''PRICING'' = ''pricing''" "toLowerCase ''Pricing'' = ''pricing''"
    "toLowerCase ''PRICE'' = ''price''" "toLowerCase ''Price'' = ''price''"
    "toLowerCase ''Billing'' = ''billing''"
    by code_simp+
  have inv: "unique_ignoring_case toLowerCase demo_tables"
    by (simp add: unique_ignoring_case_def topics_pkey_def uq_topics_label_def
          uq_topic_aliases_def demo_tables_def)
  have t: "?t \<in> set (topics_table demo_tables)" and a: "?a \<in> set (topic_aliases_table demo_tables)"
    by (simp_all add: demo_tables_def)
  have e: "execute toLowerCase ?now (Upsert_topic ?b) demo_tables
       = Inr (demo_tables\<lparr> topics_table := topics_table demo_tables @
            [\<lparr> topics_id = ''billing'', topics_label = ''Billing'',
               topics_description = None, topics_status = ''active'',
               topics_created_at = ?now, topics_created_by = Some ''ui'' \<rparr>] \<rparr>)"
    by (simp add: execute_def upsert_topics_def demo_tables_def lo Let_def)
  from unique_ignoring_case_enforced [OF inv, of ?now "Upsert_topic ?b" ?u ?v] t a e lo
  have "execute toLowerCase ?now (Upsert_topic ?u) demo_tables = Inl (Unique_violation ''uq_topics_label'')"
    and "execute toLowerCase ?now (Upsert_alias ?v) demo_tables
       \<in> {Inl (Unique_violation ''topic_aliases_alias_key''),
          Inl (Unique_violation ''uq_topic_aliases'')}"
    and "unique_ignoring_case toLowerCase
         (demo_tables\<lparr> topics_table := topics_table demo_tables @
            [\<lparr> topics_id = ''billing'', topics_label = ''Billing'',
               topics_description = None, topics_status = ''active'',
               topics_created_at = ?now, topics_created_by = Some ''ui'' \<rparr>] \<rparr>)"
    by (simp_all add: demo_tables_def)
  with inv show ?thesis by blast
qed

subsection \<open>CSV date column\<close>

lemma date_column_index: "date_column i vs = Some dv \<Longrightarrow> 0 \<le> i"
  by (simp add: date_column_def split: if_splits)

lemma str_includes_nonempty: "str_includes s (c # cs) \<Longrightarrow> s \<noteq> []"
  by (cases s) simp_all

lemma startedAt_of_parsed:
  assumes "date_column i vs = Some dv" and "dv \<noteq> []" and "length dv \<le> 50"
    and "\<not> str_includes dv ''<''" and "\<not> str_includes dv ''>''"
    and "parsedDate engine dv = Some (b, Some t)"
  shows "startedAt_of engine now title i vs = (toISOString t, [])"
  using assms date_column_index [OF assms(1)]
  by (simp add: startedAt_of_def truthy_def Let_def)

lemma startedAt_of_invalid:
  assumes "date_column i vs = Some dv" and "dv \<noteq> []" and "length dv \<le> 50"
    and "\<not> str_includes dv ''<''" and "\<not> str_includes dv ''>''"
    and "parsedDate engine dv = Some (b, None)"
  shows "startedAt_of engine now title i vs = (toISOString now, [Invalid_date_format title dv])"
  using assms date_column_index [OF assms(1)]
  by (simp add: startedAt_of_def truthy_def Let_def)

lemma startedAt_of_skipped:
  assumes "date_column i vs = Some dv"
    and "str_includes dv ''<'' \<or> length dv > 50"
  shows "startedAt_of engine now title i vs = (toISOString now, [Skipping_date_parsing title])"
proof -
  from assms(2) have "dv \<noteq> []"
    by (auto dest: str_includes_nonempty)
  with assms date_column_index [OF assms(1)] show ?thesis
    by (auto simp add: startedAt_of_def truthy_def Let_def)
qed

lemma iso_example_fields:
  "iso_utc_fields ''2024-01-15T10:30:00Z'' = Some (2024, 1, 15, 10, 30, 0, 0)"
  "iso_utc_fields ''2024-01-15T00:00:00Z'' = Some (2024, 1, 15, 0, 0, 0, 0)"
  "iso_utc_fields ''2024-15-01T00:00:00Z'' = Some (2024, 15, 1, 0, 0, 0, 0)"
  by code_simp+

lemma new_Date_examples:
  "new_Date engine ''2024-01-15T10:30:00Z'' = Some (utc_time 2024 1 15 10 30 0 0)"
  "new_Date engine ''2024-01-15T00:00:00Z'' = Some (utc_time 2024 1 15 0 0 0 0)"
  "new_Date engine ''2024-15-01T00:00:00Z'' = None"
  by (simp_all add: new_Date_def iso_example_fields days_in_month_def)

lemma toISOString_examples:
  "toISOString (utc_time 2024 1 15 10 30 0 0) = ''2024-01-15T10:30:00.000Z''"
  "toISOString (utc_time 2024 1 15 0 0 0 0) = ''2024-01-15T00:00:00.000Z''"
  by code_simp+

lemma branch_tests:
  "str_includes ''2024-01-15T10:30:00Z'' ''T''"
  "\<not> str_includes ''2024-01-15'' ''T''" "\<not> str_includes ''2024-01-15'' ''Z''"
  "date_only_match ''2024-01-15''"
  "\<not> str_includes ''01/15/2024'' ''T''" "\<not> str_includes ''01/15/2024'' ''Z''"
  "\<not> date_only_match ''01/15/2024''" "slash_date_match ''01/15/2024''"
  "split_char CHR ''/'' [] ''01/15/2024'' = [''01'', ''15'', ''2024'']"
  "midnight_utc ''2024'' ''01'' ''15'' = ''2024-01-15T00:00:00Z''"
  "\<not> str_includes ''15/01/2024'' ''T''" "\<not> str_includes ''15/01/2024'' ''Z''"
  "\<not> date_only_match ''15/01/2024''" "slash_date_match ''15/01/2024''"
  "split_char CHR ''/'' [] ''15/01/2024'' = [''15'', ''01'', ''2024'']"
  "midnight_utc ''2024'' ''15'' ''01'' = ''2024-15-01T00:00:00Z''"
  by code_simp+

lemma not_content:
  "\<not> str_includes ''2024-01-15T10:30:00Z'' ''<''" "\<not> str_includes ''2024-01-15T10:30:00Z'' ''>''"
  "\<not> str_includes ''2024-01-15'' ''<''" "\<not> str_includes ''2024-01-15'' ''>''"
  "\<not> str_includes ''01/15/2024'' ''<''" "\<not> str_includes ''01/15/2024'' ''>''"
  "\<not> str_includes ''15/01/2024'' ''<''" "\<not> str_includes ''15/01/2024'' ''>''"
  by code_simp+

lemma parsedDate_examples:
  "parsedDate engine ''2024-01-15T10:30:00Z'' = Some (Iso_branch, Some (utc_time 2024 1 15 10 30 0 0))"
  "parsedDate engine ''2024-01-15'' = Some (Date_only_branch, Some (utc_time 2024 1 15 0 0 0 0))"
  "parsedDate engine ''01/15/2024'' = Some (Us_branch, Some (utc_time 2024 1 15 0 0 0 0))"
  "parsedDate engine ''15/01/2024'' = Some (Us_branch, None)"
  by (simp_all add: parsedDate_def branch_tests new_Date_examples)

text \<open>
  C4. For a row whose date column holds the value:
  \<^item> \<open>2024-01-15T10:30:00Z\<close> is read by the ISO branch as that instant;
  \<^item> \<open>2024-01-15\<close> is read by the date-only branch as midnight UTC of that day;
  \<^item> \<open>01/15/2024\<close> is read by the US branch as midnight UTC of January 15 2024;
  \<^item> a value that contains \<open><\<close> or is longer than 50 characters is not parsed at all:
    the start time is the current time, and the route warns that it skipped the value.
  This holds whatever the engine does with the strings the standard leaves to it, and
  whatever the current time and the other columns are.
\<close>

theorem csv_date_parsing:
  assumes "date_column dateIndex values = Some dateValue"
  shows "(dateValue = ''2024-01-15T10:30:00Z'' \<longrightarrow>
            parsedDate engine dateValue
              = Some (Iso_branch, Some (utc_time 2024 1 15 10 30 0 0))
            \<and> startedAt_of engine now title dateIndex values
              = (''2024-01-15T10:30:00.000Z'', []))
       \<and> (dateValue = ''2024-01-15'' \<longrightarrow>
            parsedDate engine dateValue
              = Some (Date_only_branch, Some (utc_time 2024 1 15 0 0 0 0))
            \<and> startedAt_of engine now title dateIndex values
              = (''2024-01-15T00:00:00.000Z'', []))
       \<and> (dateValue = ''01/15/2024'' \<longrightarrow>
            parsedDate engine dateValue
              = Some (Us_branch, Some (utc_time 2024 1 15 0 0 0 0))
            \<and> startedAt_of engine now title dateIndex values
              = (''2024-01-15T00:00:00.000Z'', []))
       \<and> (str_includes dateValue ''<'' \<or> length dateValue > 50 \<longrightarrow>
            startedAt_of engine now title dateIndex values
              = (toISOString now, [Skipping_date_parsing title]))"
proof (intro conjI impI)
  assume dv: "dateValue = ''2024-01-15T10:30:00Z''"
  then show "parsedDate engine dateValue
      = Some (Iso_branch, Some (utc_time 2024 1 15 10 30 0 0))"
    by (simp add: parsedDate_examples)
  from assms dv show "startedAt_of engine now title dateIndex values
      = (''2024-01-15T10:30:00.000Z'', [])"
    using startedAt_of_parsed [OF _ _ _ not_content(1,2) parsedDate_examples(1)]
    by (simp add: toISOString_examples)
next
  assume dv: "dateValue = ''2024-01-15''"
  then show "parsedDate engine dateValue
      = Some (Date_only_branch, Some (utc_time 2024 1 15 0 0 0 0))"
    by (simp add: parsedDate_examples)
  from assms dv show "startedAt_of engine now title dateIndex values
      = (''2024-01-15T00:00:00.000Z'', [])"
    using startedAt_of_parsed [OF _ _ _ not_content(3,4) parsedDate_examples(2)]
    by (simp add: toISOString_examples)
next
  assume dv: "dateValue = ''01/15/2024''"
  then show "parsedDate engine dateValue
      = Some (Us_branch, Some (utc_time 2024 1 15 0 0 0 0))"
    by (simp add: parsedDate_examples)
  from assms dv show "startedAt_of engine now title dateIndex values
      = (''2024-01-15T00:00:00.000Z'', [])"
    using startedAt_of_parsed [OF _ _ _ not_content(5,6) parsedDate_examples(3)]
    by (simp add: toISOString_examples)
next
  assume "str_includes dateValue ''<'' \<or> length dateValue > 50"
  with assms show "startedAt_of engine now title dateIndex values
      = (toISOString now, [Skipping_date_parsing title])"
    by (rule startedAt_of_skipped)
qed

theorem csv_date_parsing_witness:
  "startedAt_of (\<lambda>s. None) 0 ''Kickoff'' 2 [''Kickoff'', ''notes'', ''2024-01-15T10:30:00Z'']
     = (''2024-01-15T10:30:00.000Z'', [])
   \<and> startedAt_of (\<lambda>s. None) 0 ''Kickoff'' 2 [''Kickoff'', ''notes'', ''2024-01-15'']
     = (''2024-01-15T00:00:00.000Z'', [])
   \<and> startedAt_of (\<lambda>s. None) 0 ''Kickoff'' 2 [''Kickoff'', ''notes'', ''01/15/2024'']
     = (''2024-01-15T00:00:00.000Z'', [])
   \<and> startedAt_of (\<lambda>s. None) 0 ''Kickoff'' 2 [''Kickoff'', ''notes'', ''<b>2024</b>'']
     = (toISOString 0, [Skipping_date_parsing ''Kickoff''])"
proof -
  have col: "date_column 2 [''Kickoff'', ''notes'', dv] = Some dv" for dv
    by (simp add: date_column_def)
  have lt: "str_includes ''<b>2024</b>'' ''<''"
    by code_simp
  have w1: "startedAt_of (\<lambda>s. None) 0 ''Kickoff'' 2
              [''Kickoff'', ''notes'', ''2024-01-15T10:30:00Z'']
            = (''2024-01-15T10:30:00.000Z'', [])"
    by (rule csv_date_parsing [OF col, THEN conjunct1, THEN mp, OF refl, THEN conjunct2])
  have w2: "startedAt_of (\<lambda>s. None) 0 ''Kickoff'' 2 [''Kickoff'', ''notes'', ''2024-01-15'']
            = (''2024-01-15T00:00:00.000Z'', [])"
    by (rule csv_date_parsing [OF col, THEN conjunct2, THEN conjunct1, THEN mp, OF refl,
          THEN conjunct2])
  have w3: "startedAt_of (\<lambda>s. None) 0 ''Kickoff'' 2 [''Kickoff'', ''notes'', ''01/15/2024'']
            = (''2024-01-15T00:00:00.000Z'', [])"
    by (rule csv_date_parsing [OF col, THEN conjunct2, THEN conjunct2, THEN conjunct1,
          THEN mp, OF refl, THEN conjunct2])
  have w4: "startedAt_of (\<lambda>s. None) 0 ''Kickoff'' 2 [''Kickoff'', ''notes'', ''<b>2024</b>'']
            = (toISOString 0, [Skipping_date_parsing ''Kickoff''])"
    by (rule csv_date_parsing [OF col, THEN conjunct2, THEN conjunct2, THEN conjunct2,
          THEN mp, OF disjI1, OF lt])
  from w1 w2 w3 w4 show ?thesis
    by (intro conjI)
qed

text \<open>
  C5. The chain tests the ISO form, then the date-only form, then the slash form; the UK
  branch repeats the very test of the US branch and so is never taken, whatever the
  value. A day-first value such as \<open>15/01/2024\<close> goes to the US branch, which reads 15 as
  the month: the \<open>Date\<close> is invalid, the route warns and the start time is the current
  time.
\<close>

theorem uk_branch_never_taken:
  "parsedDate engine dateValue \<noteq> Some (Uk_branch, t)
   \<and> parsedDate engine ''15/01/2024'' = Some (Us_branch, None)
   \<and> startedAt_of engine now title 2 [title, content, ''15/01/2024'']
     = (toISOString now, [Invalid_date_format title ''15/01/2024''])"
proof -
  have uk: "parsedDate engine dateValue \<noteq> Some (Uk_branch, t)"
    by (simp add: parsedDate_def split: list.splits)
  have col: "date_column 2 [title, content, ''15/01/2024''] = Some ''15/01/2024''"
    by (simp add: date_column_def)
  have "startedAt_of engine now title 2 [title, content, ''15/01/2024'']
     = (toISOString now, [Invalid_date_format title ''15/01/2024''])"
    using startedAt_of_invalid [OF col _ _ not_content(7,8) parsedDate_examples(4)]
    by simp
  with uk parsedDate_examples(4) show ?thesis
    by blast
qed

end
